theory Spec2Isabelle
  imports Main "HOL-Library.Multiset"
begin

section \<open>Python strings\<close>

text \<open>
  A Python \<open>str\<close> is modelled as a \<open>string\<close> whose characters are the code points below
  256, and \<open>length\<close> counts them as \<open>len\<close> does. \<open>isspace\<close> lists the code points below
  256 for which \<open>str.isspace\<close> is true; \<open>str.strip()\<close> removes them at both ends.
\<close>

definition isspace :: "char \<Rightarrow> bool" where
  "isspace c = (of_char c \<in> set [9, 10, 11, 12, 13, 28, 29, 30, 31, 32, 133, 160 :: nat])"

definition strip :: "string \<Rightarrow> string" where
  "strip s = rev (dropWhile isspace (rev (dropWhile isspace s)))"

text \<open>
  The \<open>icontains\<close> lookup of the query interface: substring match after folding the ASCII
  letters to lower case (the folding of the test database; the wildcards of the term are
  escaped by the query layer, so the term is matched literally).
\<close>

definition lower :: "char \<Rightarrow> char" where
  "lower c = (if 65 \<le> (of_char c :: nat) \<and> (of_char c :: nat) \<le> 90
              then char_of ((of_char c :: nat) + 32) else c)"

fun contains :: "string \<Rightarrow> string \<Rightarrow> bool" where
  "contains [] needle = (needle = [])"
| "contains (c # cs) needle =
     (take (length needle) (c # cs) = needle \<or> contains cs needle)"

definition icontains :: "string \<Rightarrow> string \<Rightarrow> bool" where
  "icontains field_value term = contains (map lower field_value) (map lower term)"

section \<open>models.py: the Ticket entity and the store\<close>

type_synonym timestamp = int

record Ticket =
  pk :: nat
  title :: string
  description :: string
  contact_email :: string
  contact_phone :: "string option"
  status :: string
  created_at :: timestamp
  updated_at :: timestamp

definition STATUS_CHOICES :: "(string \<times> string) list" where
  "STATUS_CHOICES =
     [(''pending'', ''Pending''), (''accepted'', ''Accepted''),
      (''resolved'', ''Resolved''), (''rejected'', ''Rejected'')]"

text \<open>
  The table \<open>helpdesk_ticket\<close>: its rows in insertion order, and the counter of the
  auto-incremented primary key.
\<close>

record store =
  tickets :: "Ticket list"
  next_pk :: nat

section \<open>The serializer fields derived from the model declarations\<close>

text \<open>
  \<open>request.data\<close> is a JSON object: a dictionary from key to value. The values modelled
  are \<open>null\<close> and strings; a key that is missing is \<open>None\<close> of the map (the framework's
  \<open>empty\<close> marker).
\<close>

datatype jval = JNull | JStr string

type_synonym request_data = "string \<rightharpoonup> jval"

datatype message =
    Required
  | Null_value
  | Blank
  | Max_length nat
  | Null_characters
  | Invalid_email
  | Invalid_choice string
  | Detail string

datatype 'a outcome = SkipField | Value 'a

type_synonym field_result = "message list + string option outcome"

definition MaxLengthValidator :: "nat \<Rightarrow> string \<Rightarrow> message list" where
  "MaxLengthValidator limit v = (if length v > limit then [Max_length limit] else [])"

definition ProhibitNullCharactersValidator :: "string \<Rightarrow> message list" where
  "ProhibitNullCharactersValidator v = (if CHR 0x00 \<in> set v then [Null_characters] else [])"

text \<open>
  The syntax check of an e-mail address is the framework's; it is the parameter \<open>ve\<close> of
  everything below.
\<close>

definition EmailValidator :: "(string \<Rightarrow> bool) \<Rightarrow> string \<Rightarrow> message list" where
  "EmailValidator ve v = (if ve v then [] else [Invalid_email])"

definition run_validators :: "(string \<Rightarrow> message list) list \<Rightarrow> string \<Rightarrow> message list" where
  "run_validators vs v = concat (map (\<lambda>validator. validator v) vs)"

record CharField =
  required :: bool
  allow_null :: bool
  allow_blank :: bool
  validators :: "(string \<Rightarrow> message list) list"

definition CharField_init :: "bool \<Rightarrow> bool \<Rightarrow> bool \<Rightarrow> nat option \<Rightarrow> CharField" where
  "CharField_init req an ab max_length =
     \<lparr>required = req, allow_null = an, allow_blank = ab,
      validators = (case max_length of None \<Rightarrow> [] | Some n \<Rightarrow> [MaxLengthValidator n])
                   @ [ProhibitNullCharactersValidator]\<rparr>"

definition EmailField_init ::
  "(string \<Rightarrow> bool) \<Rightarrow> bool \<Rightarrow> bool \<Rightarrow> bool \<Rightarrow> nat option \<Rightarrow> CharField" where
  "EmailField_init ve req an ab max_length =
     (let f = CharField_init req an ab max_length
      in f\<lparr>validators := validators f @ [EmailValidator ve]\<rparr>)"

datatype empty_result = Raise message | Skipped | Empty_None | Not_empty string

text \<open>
  \<open>Field.validate_empty_values\<close>: a missing key is skipped under a partial update, fails
  when the field is required, and is skipped otherwise (no serializer field here has a
  default of its own); \<open>null\<close> fails unless the field allows it.
\<close>

definition validate_empty_values :: "bool \<Rightarrow> bool \<Rightarrow> bool \<Rightarrow> jval option \<Rightarrow> empty_result" where
  "validate_empty_values partial req an d =
     (case d of
        None \<Rightarrow> if partial then Skipped else if req then Raise Required else Skipped
      | Some JNull \<Rightarrow> if \<not> an then Raise Null_value else Empty_None
      | Some (JStr s) \<Rightarrow> Not_empty s)"

definition Field_run_validation ::
  "bool \<Rightarrow> bool \<Rightarrow> bool \<Rightarrow> (string \<Rightarrow> field_result) \<Rightarrow> jval option \<Rightarrow> field_result" where
  "Field_run_validation partial req an to_internal_value d =
     (case validate_empty_values partial req an d of
        Raise m \<Rightarrow> Inl [m]
      | Skipped \<Rightarrow> Inr SkipField
      | Empty_None \<Rightarrow> Inr (Value None)
      | Not_empty s \<Rightarrow> to_internal_value s)"

text \<open>
  \<open>CharField\<close>: the blank test comes first; then the value is trimmed
  (\<open>trim_whitespace\<close> is on by default) and the validators run on the trimmed value.
\<close>

definition CharField_to_internal_value :: "CharField \<Rightarrow> string \<Rightarrow> field_result" where
  "CharField_to_internal_value f s =
     (let v = strip s; errors = run_validators (validators f) v
      in if errors = [] then Inr (Value (Some v)) else Inl errors)"

definition CharField_run_validation :: "CharField \<Rightarrow> bool \<Rightarrow> jval option \<Rightarrow> field_result" where
  "CharField_run_validation f partial d =
     (case d of
        Some (JStr s) \<Rightarrow>
          if s = [] \<or> strip s = []
          then (if \<not> allow_blank f then Inl [Blank] else Inr (Value (Some [])))
          else Field_run_validation partial (required f) (allow_null f)
                 (CharField_to_internal_value f) d
      | _ \<Rightarrow> Field_run_validation partial (required f) (allow_null f)
                 (CharField_to_internal_value f) d)"

definition ChoiceField_to_internal_value :: "(string \<times> string) list \<Rightarrow> string \<Rightarrow> field_result" where
  "ChoiceField_to_internal_value choices s =
     (if s \<in> set (map fst choices) then Inr (Value (Some s)) else Inl [Invalid_choice s])"

definition ChoiceField_run_validation ::
  "bool \<Rightarrow> bool \<Rightarrow> (string \<times> string) list \<Rightarrow> bool \<Rightarrow> jval option \<Rightarrow> field_result" where
  "ChoiceField_run_validation req an choices partial d =
     Field_run_validation partial req an (ChoiceField_to_internal_value choices) d"

text \<open>
  The serializer fields that the model declarations give: \<open>title\<close> is
  \<open>CharField(max_length=200)\<close>, \<open>description\<close> a \<open>TextField\<close>, \<open>contact_email\<close> an
  \<open>EmailField\<close> (254 characters at most), \<open>contact_phone\<close> is
  \<open>CharField(max_length=20, blank=True, null=True)\<close>, and \<open>status\<close> has choices and a
  default, so it is an optional choice field.
\<close>

definition title_field :: CharField where
  "title_field = CharField_init True False False (Some 200)"

definition description_field :: CharField where
  "description_field = CharField_init True False False None"

definition contact_email_field :: "(string \<Rightarrow> bool) \<Rightarrow> CharField" where
  "contact_email_field ve = EmailField_init ve True False False (Some 254)"

definition contact_phone_field :: CharField where
  "contact_phone_field = CharField_init False True True (Some 20)"

definition status_field :: "bool \<Rightarrow> jval option \<Rightarrow> field_result" where
  "status_field = ChoiceField_run_validation False False STATUS_CHOICES"

section \<open>serializers.py\<close>

text \<open>
  \<open>validate_title\<close> and \<open>validate_description\<close> have the same text in the three
  serializer classes.
\<close>

definition validate_title :: "string \<Rightarrow> message list + string" where
  "validate_title v =
     (if length (strip v) < 3 then Inl [Detail ''Title must be at least 3 characters long.'']
      else Inr (strip v))"

definition validate_description :: "string \<Rightarrow> message list + string" where
  "validate_description v =
     (if length (strip v) < 10
      then Inl [Detail ''Description must be at least 10 characters long.'']
      else Inr (strip v))"

text \<open>
  A serializer is the list of its writable fields in the order of \<open>Meta.fields\<close>: the
  name, the field's \<open>run_validation\<close>, and the \<open>validate_<name>\<close> method when the class
  has one. The method is called on the value the field returned; for \<open>title\<close> and
  \<open>description\<close> that value is always a string, since neither field allows \<open>null\<close>.
\<close>

type_synonym serializer_field =
  "string \<times> (bool \<Rightarrow> jval option \<Rightarrow> field_result) \<times> (string \<Rightarrow> message list + string) option"

definition TicketCreateSerializer :: "(string \<Rightarrow> bool) \<Rightarrow> serializer_field list" where
  "TicketCreateSerializer ve =
     [(''title'', CharField_run_validation title_field, Some validate_title),
      (''description'', CharField_run_validation description_field, Some validate_description),
      (''contact_email'', CharField_run_validation (contact_email_field ve), None),
      (''contact_phone'', CharField_run_validation contact_phone_field, None)]"

definition TicketUpdateSerializer :: "(string \<Rightarrow> bool) \<Rightarrow> serializer_field list" where
  "TicketUpdateSerializer ve =
     [(''title'', CharField_run_validation title_field, Some validate_title),
      (''description'', CharField_run_validation description_field, Some validate_description),
      (''contact_email'', CharField_run_validation (contact_email_field ve), None),
      (''contact_phone'', CharField_run_validation contact_phone_field, None),
      (''status'', status_field, None)]"

text \<open>
  One pass of the loop of \<open>Serializer.to_internal_value\<close> over a field: the field's own
  validation, then the \<open>validate_<name>\<close> method; a validation error of either is the
  field's error.
\<close>

definition validate_field :: "bool \<Rightarrow> request_data \<Rightarrow> serializer_field \<Rightarrow> field_result" where
  "validate_field partial d fld =
     (case fld of (name, run_validation, validate_method) \<Rightarrow>
        (case run_validation partial (d name) of
           Inl errors \<Rightarrow> Inl errors
         | Inr SkipField \<Rightarrow> Inr SkipField
         | Inr (Value None) \<Rightarrow> Inr (Value None)
         | Inr (Value (Some v)) \<Rightarrow>
             (case validate_method of
                None \<Rightarrow> Inr (Value (Some v))
              | Some m \<Rightarrow> (case m v of Inl errors \<Rightarrow> Inl errors
                                      | Inr v' \<Rightarrow> Inr (Value (Some v'))))))"

type_synonym validated_data = "(string \<times> string option) list"

type_synonym errors = "(string \<times> message list) list"

fun fields_loop ::
  "bool \<Rightarrow> request_data \<Rightarrow> serializer_field list \<Rightarrow> validated_data \<Rightarrow> errors
     \<Rightarrow> validated_data \<times> errors" where
  "fields_loop partial d [] ret errs = (ret, errs)"
| "fields_loop partial d (fld # flds) ret errs =
     (case validate_field partial d fld of
        Inl e \<Rightarrow> fields_loop partial d flds ret (errs @ [(fst fld, e)])
      | Inr SkipField \<Rightarrow> fields_loop partial d flds ret errs
      | Inr (Value v) \<Rightarrow> fields_loop partial d flds (ret @ [(fst fld, v)]) errs)"

definition to_internal_value ::
  "serializer_field list \<Rightarrow> bool \<Rightarrow> request_data \<Rightarrow> errors + validated_data" where
  "to_internal_value flds partial d =
     (case fields_loop partial d flds [] [] of
        (ret, errs) \<Rightarrow> if errs \<noteq> [] then Inl errs else Inr ret)"

section \<open>Saving: \<open>Ticket.objects.create\<close> and \<open>ModelSerializer.update\<close>\<close>

text \<open>
  A new row takes the next primary key, the model's defaults for the columns the
  validated data do not give (\<open>pending\<close> for \<open>status\<close>, \<open>NULL\<close> for \<open>contact_phone\<close>), and
  its two time stamps. \<open>created_at\<close> has \<open>auto_now_add\<close> and \<open>updated_at\<close> has
  \<open>auto_now\<close>: on an insert each of the two columns calls \<open>timezone.now()\<close> for itself
  when it is saved, \<open>created_at\<close> first, so a creation takes two readings of the clock.
\<close>

definition Ticket_objects_create ::
  "store \<Rightarrow> validated_data \<Rightarrow> timestamp \<Rightarrow> timestamp \<Rightarrow> store \<times> Ticket" where
  "Ticket_objects_create s vd now_created now_updated =
     (let ticket =
        \<lparr>pk = next_pk s,
         title = (case map_of vd ''title'' of Some (Some v) \<Rightarrow> v | _ \<Rightarrow> []),
         description = (case map_of vd ''description'' of Some (Some v) \<Rightarrow> v | _ \<Rightarrow> []),
         contact_email = (case map_of vd ''contact_email'' of Some (Some v) \<Rightarrow> v | _ \<Rightarrow> []),
         contact_phone = (case map_of vd ''contact_phone'' of Some v \<Rightarrow> v | None \<Rightarrow> None),
         status = (case map_of vd ''status'' of Some (Some v) \<Rightarrow> v | _ \<Rightarrow> ''pending''),
         created_at = now_created,
         updated_at = now_updated\<rparr>
      in (s\<lparr>tickets := tickets s @ [ticket], next_pk := Suc (next_pk s)\<rparr>, ticket))"

text \<open>
  \<open>setattr(instance, attr, value)\<close> for the attributes a serializer can write. The
  columns other than \<open>contact_phone\<close> are not nullable, and their fields never validate
  to \<open>None\<close>.
\<close>

definition setattr :: "Ticket \<Rightarrow> string \<times> string option \<Rightarrow> Ticket" where
  "setattr instance av =
     (case av of
        (attr, Some v) \<Rightarrow>
          if attr = ''title'' then instance\<lparr>title := v\<rparr>
          else if attr = ''description'' then instance\<lparr>description := v\<rparr>
          else if attr = ''contact_email'' then instance\<lparr>contact_email := v\<rparr>
          else if attr = ''contact_phone'' then instance\<lparr>contact_phone := Some v\<rparr>
          else if attr = ''status'' then instance\<lparr>status := v\<rparr>
          else instance
      | (attr, None) \<Rightarrow>
          if attr = ''contact_phone'' then instance\<lparr>contact_phone := None\<rparr> else instance)"

definition get_object :: "store \<Rightarrow> nat \<Rightarrow> Ticket option" where
  "get_object s k = find (\<lambda>t. pk t = k) (tickets s)"

text \<open>
  \<open>instance.save()\<close> of an existing row: \<open>auto_now\<close> refreshes \<open>updated_at\<close>, and the row
  with the instance's primary key is rewritten.
\<close>

definition save :: "store \<Rightarrow> Ticket \<Rightarrow> timestamp \<Rightarrow> store \<times> Ticket" where
  "save s instance now =
     (let ticket = instance\<lparr>updated_at := now\<rparr>
      in (s\<lparr>tickets := map (\<lambda>t. if pk t = pk ticket then ticket else t) (tickets s)\<rparr>,
          ticket))"

definition ModelSerializer_update ::
  "store \<Rightarrow> Ticket \<Rightarrow> validated_data \<Rightarrow> timestamp \<Rightarrow> store \<times> Ticket" where
  "ModelSerializer_update s instance vd now = save s (foldl setattr instance vd) now"

section \<open>views.py\<close>

record stats =
  total :: nat
  pending :: nat
  accepted :: nat
  resolved :: nat
  rejected :: nat

datatype payload =
    Data Ticket
  | Errors errors
  | Queryset "Ticket list"
  | Statistics stats
  | No_content

datatype response = Response nat payload

text \<open>
  The query parameters of a list request. \<open>q_created_after\<close>, \<open>q_created_before\<close> and
  \<open>q_title\<close> are the parameters that \<open>filters.py\<close> names; a date parameter is given by
  the instant it denotes.
\<close>

record query_params =
  q_status :: "string option"
  q_search :: "string option"
  q_created_after :: "timestamp option"
  q_created_before :: "timestamp option"
  q_title :: "string option"

text \<open>
  \<open>TicketListCreateAPIView.get_queryset\<close>. The queryset is the list of its rows in the
  order of the table; the filter backend configured with \<open>filterset_fields = ['status']\<close>,
  the ordering and the pagination, which the framework applies to this queryset
  afterwards, are not part of the model.
\<close>

definition get_queryset :: "store \<Rightarrow> query_params \<Rightarrow> Ticket list" where
  "get_queryset s params =
     (let queryset = tickets s;
          status_filter = q_status params;
          queryset = (case status_filter of
                        None \<Rightarrow> queryset
                      | Some st \<Rightarrow> if st \<noteq> [] then filter (\<lambda>t. status t = st) queryset
                                  else queryset);
          search = q_search params;
          queryset = (case search of
                        None \<Rightarrow> queryset
                      | Some term \<Rightarrow>
                          if term \<noteq> []
                          then filter (\<lambda>t. icontains (title t) term
                                           \<or> icontains (description t) term
                                           \<or> icontains (contact_email t) term) queryset
                          else queryset)
      in queryset)"

text \<open>
  \<open>filters.py\<close>: the filter set \<open>TicketFilter\<close>, with the queryset it gives for valid
  parameters (an empty value leaves its filter out). No view refers to it.
\<close>

definition TicketFilter_qs :: "Ticket list \<Rightarrow> query_params \<Rightarrow> Ticket list" where
  "TicketFilter_qs queryset params =
     (let queryset = (case q_status params of
                        None \<Rightarrow> queryset
                      | Some st \<Rightarrow> if st \<noteq> [] then filter (\<lambda>t. status t = st) queryset
                                  else queryset);
          queryset = (case q_created_after params of
                        None \<Rightarrow> queryset
                      | Some a \<Rightarrow> filter (\<lambda>t. created_at t \<ge> a) queryset);
          queryset = (case q_created_before params of
                        None \<Rightarrow> queryset
                      | Some b \<Rightarrow> filter (\<lambda>t. created_at t \<le> b) queryset);
          queryset = (case q_title params of
                        None \<Rightarrow> queryset
                      | Some term \<Rightarrow> if term \<noteq> []
                                    then filter (\<lambda>t. icontains (title t) term) queryset
                                    else queryset)
      in queryset)"

text \<open>\<open>TicketListCreateAPIView.create\<close>, with the two clock readings of the insertion.\<close>

definition create ::
  "(string \<Rightarrow> bool) \<Rightarrow> store \<Rightarrow> request_data \<Rightarrow> timestamp \<Rightarrow> timestamp \<Rightarrow> store \<times> response" where
  "create ve s d now_created now_updated =
     (case to_internal_value (TicketCreateSerializer ve) False d of
        Inr vd \<Rightarrow>
          (case Ticket_objects_create s vd now_created now_updated of
             (s', ticket) \<Rightarrow> (s', Response 201 (Data ticket)))
      | Inl errs \<Rightarrow> (s, Response 400 (Errors errs)))"

text \<open>
  \<open>TicketRetrieveUpdateAPIView.update\<close>: \<open>kwargs.pop('partial', False)\<close>, the lookup of
  the instance (404 when there is none), validation, and the save with its clock reading.
\<close>

definition update ::
  "(string \<Rightarrow> bool) \<Rightarrow> bool option \<Rightarrow> store \<Rightarrow> nat \<Rightarrow> request_data \<Rightarrow> timestamp
     \<Rightarrow> store \<times> response" where
  "update ve kwargs_partial s k d now =
     (let partial = (case kwargs_partial of None \<Rightarrow> False | Some b \<Rightarrow> b)
      in case get_object s k of
           None \<Rightarrow> (s, Response 404 No_content)
         | Some instance \<Rightarrow>
             (case to_internal_value (TicketUpdateSerializer ve) partial d of
                Inr vd \<Rightarrow>
                  (case ModelSerializer_update s instance vd now of
                     (s', ticket) \<Rightarrow> (s', Response 200 (Data ticket)))
              | Inl errs \<Rightarrow> (s, Response 400 (Errors errs))))"

text \<open>
  The handlers of the generic view: \<open>put\<close> calls \<open>update\<close> as it is, \<open>patch\<close> goes through
  \<open>partial_update\<close>, which sets \<open>partial=True\<close>.
\<close>

definition put ::
  "(string \<Rightarrow> bool) \<Rightarrow> store \<Rightarrow> nat \<Rightarrow> request_data \<Rightarrow> timestamp \<Rightarrow> store \<times> response" where
  "put ve s k d now = update ve None s k d now"

definition patch ::
  "(string \<Rightarrow> bool) \<Rightarrow> store \<Rightarrow> nat \<Rightarrow> request_data \<Rightarrow> timestamp \<Rightarrow> store \<times> response" where
  "patch ve s k d now = update ve (Some True) s k d now"

definition retrieve :: "store \<Rightarrow> nat \<Rightarrow> store \<times> response" where
  "retrieve s k =
     (case get_object s k of
        None \<Rightarrow> (s, Response 404 No_content)
      | Some instance \<Rightarrow> (s, Response 200 (Data instance)))"

definition ticket_stats :: "store \<Rightarrow> stats" where
  "ticket_stats s =
     \<lparr>total = length (tickets s),
      pending = length (filter (\<lambda>t. status t = ''pending'') (tickets s)),
      accepted = length (filter (\<lambda>t. status t = ''accepted'') (tickets s)),
      resolved = length (filter (\<lambda>t. status t = ''resolved'') (tickets s)),
      rejected = length (filter (\<lambda>t. status t = ''rejected'') (tickets s))\<rparr>"

section \<open>urls.py: the routes and the methods each view handles\<close>

datatype http_method = GET | POST | PUT | PATCH | DELETE

datatype route = Ticket_list_create | Ticket_detail nat | Ticket_stats

record request =
  http_method :: http_method
  route :: route
  params :: query_params
  data :: request_data
  clock :: timestamp
  clock_again :: timestamp

definition urlpatterns :: "(string \<Rightarrow> bool) \<Rightarrow> store \<Rightarrow> request \<Rightarrow> store \<times> response" where
  "urlpatterns ve s r =
     (case route r of
        Ticket_list_create \<Rightarrow>
          (case http_method r of
             GET \<Rightarrow> (s, Response 200 (Queryset (get_queryset s (params r))))
           | POST \<Rightarrow> create ve s (data r) (clock r) (clock_again r)
           | _ \<Rightarrow> (s, Response 405 No_content))
      | Ticket_detail k \<Rightarrow>
          (case http_method r of
             GET \<Rightarrow> retrieve s k
           | PUT \<Rightarrow> put ve s k (data r) (clock r)
           | PATCH \<Rightarrow> patch ve s k (data r) (clock r)
           | _ \<Rightarrow> (s, Response 405 No_content))
      | Ticket_stats \<Rightarrow>
          (case http_method r of
             GET \<Rightarrow> (s, Response 200 (Statistics (ticket_stats s)))
           | _ \<Rightarrow> (s, Response 405 No_content)))"

section \<open>admin.py\<close>

definition has_delete_permission :: "unit \<Rightarrow> Ticket option \<Rightarrow> bool" where
  "has_delete_permission request obj = False"

text \<open>
  The delete view of the console asks \<open>has_delete_permission\<close> before anything else and
  answers 403 when it is refused; only past it would the row be removed.
\<close>

definition admin_delete :: "store \<Rightarrow> nat \<Rightarrow> store \<times> response" where
  "admin_delete s k =
     (let obj = get_object s k
      in if \<not> has_delete_permission () obj then (s, Response 403 No_content)
         else case obj of
                None \<Rightarrow> (s, Response 404 No_content)
              | Some t \<Rightarrow> (s\<lparr>tickets := filter (\<lambda>t. pk t \<noteq> k) (tickets s)\<rparr>,
                           Response 302 No_content))"

text \<open>
  The add and change forms of the console edit the fields of the field sets other than
  the read-only time stamps. The cleaning of the form is the framework's: a form is given
  here by its cleaned values, and every form is taken as accepted.
\<close>

record admin_form =
  form_title :: string
  form_description :: string
  form_status :: string
  form_contact_email :: string
  form_contact_phone :: "string option"

definition admin_add :: "store \<Rightarrow> admin_form \<Rightarrow> timestamp \<Rightarrow> timestamp \<Rightarrow> store \<times> response" where
  "admin_add s f now_created now_updated =
     (let ticket =
        \<lparr>pk = next_pk s, title = form_title f, description = form_description f,
         contact_email = form_contact_email f, contact_phone = form_contact_phone f,
         status = form_status f, created_at = now_created, updated_at = now_updated\<rparr>
      in (s\<lparr>tickets := tickets s @ [ticket], next_pk := Suc (next_pk s)\<rparr>,
          Response 302 No_content))"

definition admin_change :: "store \<Rightarrow> nat \<Rightarrow> admin_form \<Rightarrow> timestamp \<Rightarrow> store \<times> response" where
  "admin_change s k f now =
     (case get_object s k of
        None \<Rightarrow> (s, Response 404 No_content)
      | Some obj \<Rightarrow>
          (case save s (obj\<lparr>title := form_title f, description := form_description f,
                            contact_email := form_contact_email f,
                            contact_phone := form_contact_phone f,
                            status := form_status f\<rparr>) now of
             (s', ticket) \<Rightarrow> (s', Response 302 No_content)))"

section \<open>The public interface: sequences of requests\<close>

datatype operation =
    Api request
  | Admin_add admin_form timestamp timestamp
  | Admin_change nat admin_form timestamp
  | Admin_delete nat

definition handle :: "(string \<Rightarrow> bool) \<Rightarrow> store \<Rightarrow> operation \<Rightarrow> store \<times> response" where
  "handle ve s op =
     (case op of
        Api r \<Rightarrow> urlpatterns ve s r
      | Admin_add f t1 t2 \<Rightarrow> admin_add s f t1 t2
      | Admin_change k f t \<Rightarrow> admin_change s k f t
      | Admin_delete k \<Rightarrow> admin_delete s k)"

fun run :: "(string \<Rightarrow> bool) \<Rightarrow> store \<Rightarrow> operation list \<Rightarrow> store" where
  "run ve s [] = s"
| "run ve s (op # ops) = run ve (fst (handle ve s op)) ops"

section \<open>Notions the properties are stated with\<close>


text \<open>
  The errors and the values that the fields of a serializer give one by one: what the
  loop of \<open>to_internal_value\<close> collects.
\<close>

definition field_errors :: "bool \<Rightarrow> request_data \<Rightarrow> serializer_field list \<Rightarrow> errors" where
  "field_errors partial d flds =
     concat (map (\<lambda>f. case validate_field partial d f of
                         Inl e \<Rightarrow> [(fst f, e)] | Inr _ \<Rightarrow> []) flds)"

definition field_values ::
  "bool \<Rightarrow> request_data \<Rightarrow> serializer_field list \<Rightarrow> validated_data" where
  "field_values partial d flds =
     concat (map (\<lambda>f. case validate_field partial d f of
                         Inr (Value v) \<Rightarrow> [(fst f, v)] | _ \<Rightarrow> []) flds)"


section \<open>Test data\<close>

text \<open>
  Tickets in the manner of \<open>tests/factories.py\<close>, the stores that \<open>tests/test_views.py\<close>
  sets up, and an address check for evaluating examples: like the assertion of
  \<open>tests/test_models.py\<close>, it looks for the at sign.
\<close>

definition has_at_sign :: "string \<Rightarrow> bool" where
  "has_at_sign v = (CHR ''@'' \<in> set v)"

definition factory_ticket :: "nat \<Rightarrow> string \<Rightarrow> string \<Rightarrow> Ticket" where
  "factory_ticket k ttl st =
     \<lparr>pk = k, title = ttl,
      description = ''This is a test description with enough characters'',
      contact_email = ''test@example.com'', contact_phone = None, status = st,
      created_at = int k, updated_at = int k\<rparr>"

definition list_store :: store where
  "list_store =
     \<lparr>tickets = [factory_ticket 1 ''Pending Ticket'' ''pending'',
                 factory_ticket 2 ''Accepted Ticket'' ''accepted'',
                 factory_ticket 3 ''Resolved Ticket'' ''resolved'',
                 factory_ticket 4 ''New Support Request'' ''rejected''],
      next_pk = 5\<rparr>"

definition stats_store :: store where
  "stats_store =
     \<lparr>tickets = [factory_ticket 1 ''Test Ticket 0'' ''resolved'',
                 factory_ticket 2 ''Test Ticket 1'' ''pending'',
                 factory_ticket 3 ''Test Ticket 2'' ''accepted'',
                 factory_ticket 4 ''Test Ticket 3'' ''resolved'',
                 factory_ticket 5 ''Test Ticket 4'' ''pending'',
                 factory_ticket 6 ''Test Ticket 5'' ''rejected'',
                 factory_ticket 7 ''Test Ticket 6'' ''resolved'',
                 factory_ticket 8 ''Test Ticket 7'' ''accepted'',
                 factory_ticket 9 ''Test Ticket 8'' ''pending'',
                 factory_ticket 10 ''Test Ticket 9'' ''resolved''],
      next_pk = 11\<rparr>"

definition no_params :: query_params where
  "no_params = \<lparr>q_status = None, q_search = None, q_created_after = None,
                 q_created_before = None, q_title = None\<rparr>"

definition update_store :: store where
  "update_store =
     \<lparr>tickets = [factory_ticket 1 ''Test Update Ticket'' ''pending''], next_pk = 2\<rparr>"

definition status_only :: request_data where
  "status_only = [''status'' \<mapsto> JStr ''resolved'']"

definition create_data :: request_data where
  "create_data =
     [''title'' \<mapsto> JStr ''New Support Request'',
      ''description'' \<mapsto> JStr ''This is a detailed description of the support request'',
      ''contact_email'' \<mapsto> JStr ''user@example.com'',
      ''contact_phone'' \<mapsto> JStr ''1234567890'']"

definition created_ticket :: Ticket where
  "created_ticket =
     \<lparr>pk = 2, title = ''New Support Request'',
      description = ''This is a detailed description of the support request'',
      contact_email = ''user@example.com'', contact_phone = Some ''1234567890'',
      status = ''pending'', created_at = 5, updated_at = 6\<rparr>"



definition short_data :: request_data where
  "short_data =
     [''title'' \<mapsto> JStr ''Hi'',
      ''description'' \<mapsto> JStr ''Too short'',
      ''contact_email'' \<mapsto> JStr ''test@example.com'']"



definition delete_request :: request where
  "delete_request =
     \<lparr>http_method = DELETE, route = Ticket_detail 1, params = no_params,
      data = Map.empty, clock = 7, clock_again = 7\<rparr>"

definition example_operations :: "operation list" where
  "example_operations =
     [Admin_delete 1,
      Api delete_request,
      Api \<lparr>http_method = POST, route = Ticket_list_create, params = no_params,
           data = create_data, clock = 5, clock_again = 6\<rparr>,
      Api \<lparr>http_method = PATCH, route = Ticket_detail 1, params = no_params,
           data = status_only, clock = 9, clock_again = 9\<rparr>]"

section \<open>The query layer\<close>





text \<open>
  C10: a status or a search parameter that is present with the empty string as its value
  gives the queryset of the same request without that parameter.
\<close>

theorem empty_parameter_not_applied:
  "get_queryset s (p\<lparr>q_status := Some []\<rparr>) = get_queryset s (p\<lparr>q_status := None\<rparr>)
   \<and> get_queryset s (p\<lparr>q_search := Some []\<rparr>) = get_queryset s (p\<lparr>q_search := None\<rparr>)"
  by (simp add: get_queryset_def)

theorem empty_parameter_not_applied_witness:
  "get_queryset list_store (no_params\<lparr>q_search := Some ''support'', q_status := Some []\<rparr>)
     = [factory_ticket 4 ''New Support Request'' ''rejected'']
   \<and> get_queryset list_store (no_params\<lparr>q_status := Some ''pending'', q_search := Some []\<rparr>)
     = [factory_ticket 1 ''Pending Ticket'' ''pending'']"
proof -
  have c: "icontains ''New Support Request'' ''support''"
    "\<not> icontains ''Pending Ticket'' ''support''"
    "\<not> icontains ''Accepted Ticket'' ''support''"
    "\<not> icontains ''Resolved Ticket'' ''support''"
    "\<not> icontains ''This is a test description with enough characters'' ''support''"
    "\<not> icontains ''test@example.com'' ''support''"
    by code_simp+
  have "get_queryset list_store (no_params\<lparr>q_search := Some ''support'', q_status := None\<rparr>)
          = [factory_ticket 4 ''New Support Request'' ''rejected'']"
    using c by (simp add: get_queryset_def list_store_def factory_ticket_def Let_def)
  moreover
  have "get_queryset list_store (no_params\<lparr>q_status := Some ''pending'', q_search := None\<rparr>)
          = [factory_ticket 1 ''Pending Ticket'' ''pending'']"
    by (simp add: get_queryset_def list_store_def factory_ticket_def Let_def)
  ultimately show ?thesis
    using empty_parameter_not_applied
            [of list_store "no_params\<lparr>q_search := Some ''support''\<rparr>"]
          empty_parameter_not_applied
            [of list_store "no_params\<lparr>q_status := Some ''pending''\<rparr>"]
    by simp
qed

section \<open>The statistics\<close>

lemma count_status: "length (filter (\<lambda>t. status t = x) ts) = count (mset (map status ts)) x"
  by (induction ts) auto

text \<open>
  C8: the statistics are five numbers over the whole store: \<open>total\<close> is the number of
  rows, and each of the four others is the number of rows with exactly that status.
  A store with 3 pending, 2 accepted, 4 resolved tickets and 1 rejected one, in any
  order, gives 10, 3, 2, 4 and 1.
\<close>

theorem ticket_stats_counts:
  "total (ticket_stats s) = length (tickets s)
   \<and> pending (ticket_stats s)
       = card {i. i < length (tickets s) \<and> status (tickets s ! i) = ''pending''}
   \<and> accepted (ticket_stats s)
       = card {i. i < length (tickets s) \<and> status (tickets s ! i) = ''accepted''}
   \<and> resolved (ticket_stats s)
       = card {i. i < length (tickets s) \<and> status (tickets s ! i) = ''resolved''}
   \<and> rejected (ticket_stats s)
       = card {i. i < length (tickets s) \<and> status (tickets s ! i) = ''rejected''}
   \<and> (mset (map status (tickets s))
         = replicate_mset 3 ''pending'' + replicate_mset 2 ''accepted''
           + replicate_mset 4 ''resolved'' + replicate_mset 1 ''rejected''
        \<longrightarrow> ticket_stats s
             = \<lparr>total = 10, pending = 3, accepted = 2, resolved = 4, rejected = 1\<rparr>)"
proof -
  have counts: "total (ticket_stats s) = length (tickets s)"
    "pending (ticket_stats s)
       = card {i. i < length (tickets s) \<and> status (tickets s ! i) = ''pending''}"
    "accepted (ticket_stats s)
       = card {i. i < length (tickets s) \<and> status (tickets s ! i) = ''accepted''}"
    "resolved (ticket_stats s)
       = card {i. i < length (tickets s) \<and> status (tickets s ! i) = ''resolved''}"
    "rejected (ticket_stats s)
       = card {i. i < length (tickets s) \<and> status (tickets s ! i) = ''rejected''}"
    by (simp_all add: ticket_stats_def length_filter_conv_card)
  have example: "ticket_stats s
             = \<lparr>total = 10, pending = 3, accepted = 2, resolved = 4, rejected = 1\<rparr>"
    if m: "mset (map status (tickets s))
         = replicate_mset 3 ''pending'' + replicate_mset 2 ''accepted''
           + replicate_mset 4 ''resolved'' + replicate_mset 1 ''rejected''"
  proof -
    have "length (tickets s) = size (mset (map status (tickets s)))" by simp
    also have "\<dots> = 10" unfolding m by simp
    finally have n: "length (tickets s) = 10" .
    have c: "length (filter (\<lambda>t. status t = x) (tickets s))
               = count (replicate_mset 3 ''pending'' + replicate_mset 2 ''accepted''
           + replicate_mset 4 ''resolved'' + replicate_mset 1 ''rejected'') x" for x
      using count_status [of x "tickets s"] m by simp
    show ?thesis
      by (simp add: ticket_stats_def n c)
  qed
  show ?thesis using counts example by blast
qed

theorem ticket_stats_counts_witness:
  "mset (map status (tickets stats_store))
     = replicate_mset 3 ''pending'' + replicate_mset 2 ''accepted''
       + replicate_mset 4 ''resolved'' + replicate_mset 1 ''rejected''
   \<and> ticket_stats stats_store
     = \<lparr>total = 10, pending = 3, accepted = 2, resolved = 4, rejected = 1\<rparr>"
proof -
  have "mset (map status (tickets stats_store))
         = replicate_mset 3 ''pending'' + replicate_mset 2 ''accepted''
           + replicate_mset 4 ''resolved'' + replicate_mset 1 ''rejected''"
    by (simp add: stats_store_def factory_ticket_def eval_nat_numeral)
  then show ?thesis using ticket_stats_counts [of stats_store] by blast
qed

section \<open>Trimming\<close>

lemma last_dropWhile_ne: "dropWhile P xs \<noteq> [] \<Longrightarrow> last (dropWhile P xs) = last xs"
  by (induction xs) (auto split: if_splits)

lemma dropWhile_strip: "dropWhile isspace (strip s) = strip s"
proof (cases "strip s = []")
  case True
  then show ?thesis by simp
next
  case False
  let ?a = "dropWhile isspace s"
  from False have ne: "dropWhile isspace (rev ?a) \<noteq> []" by (simp add: strip_def)
  have "?a \<noteq> []"
  proof
    assume "?a = []"
    then have "dropWhile isspace (rev ?a) = []"
      by (simp only: rev.simps(1) dropWhile.simps(1))
    with ne show False by simp
  qed
  then have h: "\<not> isspace (hd ?a)" by (rule hd_dropWhile)
  have "hd (strip s) = last (dropWhile isspace (rev ?a))"
    using ne by (simp add: strip_def hd_rev)
  also have "\<dots> = last (rev ?a)" using ne by (rule last_dropWhile_ne)
  also have "\<dots> = hd ?a" using \<open>?a \<noteq> []\<close> by (simp add: last_rev)
  finally have "\<not> isspace (hd (strip s))" using h by simp
  then show ?thesis by (simp add: dropWhile_eq_self_iff)
qed

lemma strip_strip: "strip (strip s) = strip s"
proof -
  have "strip (strip s) = rev (dropWhile isspace (rev (strip s)))"
    by (simp add: strip_def [of "strip s"] dropWhile_strip)
  also have "\<dots> = strip s" by (simp add: strip_def)
  finally show ?thesis .
qed

lemma strip_Nil: "strip [] = []"
  by (simp add: strip_def)

lemma not_isspace_NUL: "\<not> isspace (CHR 0x00)"
  by (simp add: isspace_def)

section \<open>The loop over the fields\<close>

lemma fields_loop_eq:
  "fields_loop partial d flds ret errs =
     (ret @ field_values partial d flds, errs @ field_errors partial d flds)"
  by (induction flds arbitrary: ret errs)
     (auto simp: field_values_def field_errors_def split: sum.splits outcome.splits)

lemma to_internal_value_eq:
  "to_internal_value flds partial d =
     (if field_errors partial d flds \<noteq> [] then Inl (field_errors partial d flds)
      else Inr (field_values partial d flds))"
  by (simp add: to_internal_value_def fields_loop_eq)

lemma field_errors_Nil [simp]: "field_errors partial d [] = []"
  by (simp add: field_errors_def)

lemma field_errors_Cons:
  "field_errors partial d (f # flds) =
     (case validate_field partial d f of Inl e \<Rightarrow> [(fst f, e)] | Inr _ \<Rightarrow> [])
     @ field_errors partial d flds"
  by (simp add: field_errors_def)

lemma field_values_Nil [simp]: "field_values partial d [] = []"
  by (simp add: field_values_def)

lemma field_values_Cons:
  "field_values partial d (f # flds) =
     (case validate_field partial d f of Inr (Value v) \<Rightarrow> [(fst f, v)] | _ \<Rightarrow> [])
     @ field_values partial d flds"
  by (simp add: field_values_def)

lemma in_field_errors:
  "(n, e) \<in> set (field_errors partial d flds) \<longleftrightarrow>
     (\<exists>f \<in> set flds. fst f = n \<and> validate_field partial d f = Inl e)"
  by (induction flds) (auto simp: field_errors_Cons split: sum.splits)


lemma keys_field_errors: "set (map fst (field_errors partial d flds)) \<subseteq> set (map fst flds)"
  by (induction flds) (auto simp: field_errors_Cons split: sum.splits)

lemma keys_field_values: "set (map fst (field_values partial d flds)) \<subseteq> set (map fst flds)"
  by (induction flds) (auto simp: field_values_Cons split: sum.splits outcome.splits)

lemma distinct_field_errors:
  "distinct (map fst flds) \<Longrightarrow> distinct (map fst (field_errors partial d flds))"
proof (induction flds)
  case Nil
  then show ?case by simp
next
  case (Cons f flds)
  have "fst f \<notin> set (map fst (field_errors partial d flds))"
    using keys_field_errors [of partial d flds] Cons.prems by auto
  with Cons show ?case
    by (auto simp: field_errors_Cons split: sum.splits)
qed


lemma map_of_field_errors:
  assumes "distinct (map fst flds)"
  shows "map_of (field_errors partial d flds) n = Some e \<longleftrightarrow>
     (\<exists>f \<in> set flds. fst f = n \<and> validate_field partial d f = Inl e)"
  using distinct_field_errors [OF assms, of partial d] in_field_errors [of n e partial d flds]
  by (metis map_of_eq_Some_iff)


lemma distinct_create: "distinct (map fst (TicketCreateSerializer ve))"
  by (simp add: TicketCreateSerializer_def)

lemma distinct_update: "distinct (map fst (TicketUpdateSerializer ve))"
  by (simp add: TicketUpdateSerializer_def)

lemma validators_title:
  "run_validators (validators title_field) v
     = MaxLengthValidator 200 v @ ProhibitNullCharactersValidator v"
  by (simp add: title_field_def CharField_init_def run_validators_def)

lemma flags_title:
  "required title_field" "\<not> allow_null title_field" "\<not> allow_blank title_field"
  by (simp_all add: title_field_def CharField_init_def)

lemma title_result:
  "validate_field partial d (''title'', CharField_run_validation title_field, Some validate_title)
     = (case d ''title'' of
          None \<Rightarrow> if partial then Inr SkipField else Inl [Required]
        | Some JNull \<Rightarrow> Inl [Null_value]
        | Some (JStr x) \<Rightarrow>
            if strip x = [] then Inl [Blank]
            else if MaxLengthValidator 200 (strip x) @ ProhibitNullCharactersValidator (strip x) \<noteq> []
            then Inl (MaxLengthValidator 200 (strip x) @ ProhibitNullCharactersValidator (strip x))
            else if length (strip x) < 3
            then Inl [Detail ''Title must be at least 3 characters long.'']
            else Inr (Value (Some (strip x))))"
  by (auto simp: validate_field_def CharField_run_validation_def Field_run_validation_def
      validate_empty_values_def CharField_to_internal_value_def validators_title Let_def
      validate_title_def strip_strip strip_Nil flags_title
      split: option.splits jval.splits)

lemma flags_description:
  "required description_field" "\<not> allow_null description_field"
  "\<not> allow_blank description_field"
  by (simp_all add: description_field_def CharField_init_def)

lemma validators_description:
  "run_validators (validators description_field) v = ProhibitNullCharactersValidator v"
  by (simp add: description_field_def CharField_init_def run_validators_def)

lemma description_result:
  "validate_field partial d
     (''description'', CharField_run_validation description_field, Some validate_description)
     = (case d ''description'' of
          None \<Rightarrow> if partial then Inr SkipField else Inl [Required]
        | Some JNull \<Rightarrow> Inl [Null_value]
        | Some (JStr x) \<Rightarrow>
            if strip x = [] then Inl [Blank]
            else if ProhibitNullCharactersValidator (strip x) \<noteq> []
            then Inl (ProhibitNullCharactersValidator (strip x))
            else if length (strip x) < 10
            then Inl [Detail ''Description must be at least 10 characters long.'']
            else Inr (Value (Some (strip x))))"
  by (auto simp: validate_field_def CharField_run_validation_def Field_run_validation_def
      validate_empty_values_def CharField_to_internal_value_def validators_description Let_def
      validate_description_def strip_strip strip_Nil flags_description
      split: option.splits jval.splits)

lemma flags_contact_email:
  "required (contact_email_field ve)" "\<not> allow_null (contact_email_field ve)"
  "\<not> allow_blank (contact_email_field ve)"
  by (simp_all add: contact_email_field_def EmailField_init_def CharField_init_def Let_def)

lemma validators_contact_email:
  "run_validators (validators (contact_email_field ve)) v
     = MaxLengthValidator 254 v @ ProhibitNullCharactersValidator v @ EmailValidator ve v"
  by (simp add: contact_email_field_def EmailField_init_def CharField_init_def
      run_validators_def Let_def)

lemma contact_email_result:
  "validate_field partial d
     (''contact_email'', CharField_run_validation (contact_email_field ve), None)
     = (case d ''contact_email'' of
          None \<Rightarrow> if partial then Inr SkipField else Inl [Required]
        | Some JNull \<Rightarrow> Inl [Null_value]
        | Some (JStr x) \<Rightarrow>
            if strip x = [] then Inl [Blank]
            else if run_validators (validators (contact_email_field ve)) (strip x) \<noteq> []
            then Inl (run_validators (validators (contact_email_field ve)) (strip x))
            else Inr (Value (Some (strip x))))"
  by (auto simp: validate_field_def CharField_run_validation_def Field_run_validation_def
      validate_empty_values_def CharField_to_internal_value_def Let_def
      strip_Nil flags_contact_email
      split: option.splits jval.splits)

lemma flags_contact_phone:
  "\<not> required contact_phone_field" "allow_null contact_phone_field"
  "allow_blank contact_phone_field"
  by (simp_all add: contact_phone_field_def CharField_init_def)

lemma validators_contact_phone:
  "run_validators (validators contact_phone_field) v
     = MaxLengthValidator 20 v @ ProhibitNullCharactersValidator v"
  by (simp add: contact_phone_field_def CharField_init_def run_validators_def)

lemma contact_phone_result:
  "validate_field partial d
     (''contact_phone'', CharField_run_validation contact_phone_field, None)
     = (case d ''contact_phone'' of
          None \<Rightarrow> Inr SkipField
        | Some JNull \<Rightarrow> Inr (Value None)
        | Some (JStr x) \<Rightarrow>
            if strip x = [] then Inr (Value (Some []))
            else if run_validators (validators contact_phone_field) (strip x) \<noteq> []
            then Inl (run_validators (validators contact_phone_field) (strip x))
            else Inr (Value (Some (strip x))))"
  by (auto simp: validate_field_def CharField_run_validation_def Field_run_validation_def
      validate_empty_values_def CharField_to_internal_value_def Let_def
      strip_Nil flags_contact_phone
      split: option.splits jval.splits)

lemma status_result:
  "validate_field partial d (''status'', status_field, None)
     = (case d ''status'' of
          None \<Rightarrow> Inr SkipField
        | Some JNull \<Rightarrow> Inl [Null_value]
        | Some (JStr x) \<Rightarrow>
            if x \<in> set (map fst STATUS_CHOICES) then Inr (Value (Some x))
            else Inl [Invalid_choice x])"
  by (auto simp: validate_field_def status_field_def ChoiceField_run_validation_def
      Field_run_validation_def validate_empty_values_def ChoiceField_to_internal_value_def
      split: option.splits jval.splits)

lemmas field_results =
  title_result description_result contact_email_result contact_phone_result status_result

lemma create_subset_update:
  "set (TicketCreateSerializer ve) \<subseteq> set (TicketUpdateSerializer ve)"
  by (simp add: TicketCreateSerializer_def TicketUpdateSerializer_def)

lemma setattr_fixed [simp]:
  "pk (setattr i av) = pk i" "created_at (setattr i av) = created_at i"
  "updated_at (setattr i av) = updated_at i"
  by (auto simp: setattr_def split: prod.splits option.splits)

lemma foldl_setattr_fixed [simp]:
  "pk (foldl setattr i vd) = pk i" "created_at (foldl setattr i vd) = created_at i"
  "updated_at (foldl setattr i vd) = updated_at i"
  by (induction vd arbitrary: i) auto






section \<open>The create and update views\<close>

lemma create_eq:
  "create ve s d t1 t2 =
     (if field_errors False d (TicketCreateSerializer ve) \<noteq> []
      then (s, Response 400 (Errors (field_errors False d (TicketCreateSerializer ve))))
      else (fst (Ticket_objects_create s (field_values False d (TicketCreateSerializer ve)) t1 t2),
            Response 201 (Data (snd (Ticket_objects_create s
               (field_values False d (TicketCreateSerializer ve)) t1 t2)))))"
  by (simp add: create_def to_internal_value_eq split: prod.splits)

lemma update_eq:
  assumes "get_object s k = Some inst"
  shows "update ve kp s k d now =
     (let partial = (case kp of None \<Rightarrow> False | Some b \<Rightarrow> b) in
      if field_errors partial d (TicketUpdateSerializer ve) \<noteq> []
      then (s, Response 400 (Errors (field_errors partial d (TicketUpdateSerializer ve))))
      else (fst (ModelSerializer_update s inst
                   (field_values partial d (TicketUpdateSerializer ve)) now),
            Response 200 (Data (snd (ModelSerializer_update s inst
                   (field_values partial d (TicketUpdateSerializer ve)) now)))))"
  using assms by (simp add: update_def to_internal_value_eq Let_def split: prod.splits)










lemma get_object_SomeD: "get_object s k = Some inst \<Longrightarrow> inst \<in> set (tickets s) \<and> pk inst = k"
  by (auto simp: get_object_def find_Some_iff)









lemma status_value_create:
  "map_of (field_values partial d (TicketCreateSerializer ve)) ''status'' = None"
proof -
  have "''status'' \<notin> fst ` set (field_values partial d (TicketCreateSerializer ve))"
    using keys_field_values [of partial d "TicketCreateSerializer ve"]
    by (auto simp: TicketCreateSerializer_def)
  then show ?thesis by (simp add: map_of_eq_None_iff)
qed





lemma keys_are_failing_fields:
  "map fst (field_errors partial d flds)
     = map fst (filter (\<lambda>f. isl (validate_field partial d f)) flds)"
  by (induction flds) (auto simp: field_errors_Cons split: sum.splits)

lemma field_error_ne:
  "f \<in> set (TicketUpdateSerializer ve) \<Longrightarrow> validate_field partial d f = Inl e \<Longrightarrow> e \<noteq> []"
  by (auto simp: TicketUpdateSerializer_def field_results validators_contact_email
      validators_contact_phone MaxLengthValidator_def ProhibitNullCharactersValidator_def
      split: option.splits jval.splits if_splits)

text \<open>
  C7: when a field of a create request fails validation, or a field of an update request
  for an existing ticket does, the answer is 400 with the mapping of the field errors,
  the store is the one before the request, and the mapping gives the failing field its
  messages, of which there is at least one. The field is any failing one, so every
  failing field has its entry: the keys of the mapping are the names of the failing
  fields, all of them, in the order of the serializer.
\<close>

theorem invalid_input_changes_nothing:
  "(f \<in> set (TicketCreateSerializer ve) \<and> validate_field False d f = Inl e \<longrightarrow>
       create ve s d t1 t2
         = (s, Response 400 (Errors (field_errors False d (TicketCreateSerializer ve))))
       \<and> map_of (field_errors False d (TicketCreateSerializer ve)) (fst f) = Some e
       \<and> e \<noteq> [])
   \<and> (g \<in> set (TicketUpdateSerializer ve) \<and> validate_field partial d g = Inl e'
        \<and> get_object s k = Some inst
        \<and> partial = (case kp of None \<Rightarrow> False | Some b \<Rightarrow> b) \<longrightarrow>
       update ve kp s k d now
         = (s, Response 400 (Errors (field_errors partial d (TicketUpdateSerializer ve))))
       \<and> map_of (field_errors partial d (TicketUpdateSerializer ve)) (fst g) = Some e'
       \<and> e' \<noteq> [])
   \<and> map fst (field_errors partial d flds)
       = map fst (filter (\<lambda>f. isl (validate_field partial d f)) flds)"
proof -
  have a: "create ve s d t1 t2
         = (s, Response 400 (Errors (field_errors False d (TicketCreateSerializer ve))))
       \<and> map_of (field_errors False d (TicketCreateSerializer ve)) (fst f) = Some e
       \<and> e \<noteq> []"
    if f: "f \<in> set (TicketCreateSerializer ve)" and v: "validate_field False d f = Inl e"
  proof -
    have m: "map_of (field_errors False d (TicketCreateSerializer ve)) (fst f) = Some e"
      unfolding map_of_field_errors [OF distinct_create] using f v by blast
    then have "field_errors False d (TicketCreateSerializer ve) \<noteq> []" by auto
    then have "create ve s d t1 t2
         = (s, Response 400 (Errors (field_errors False d (TicketCreateSerializer ve))))"
      by (simp add: create_eq)
    moreover have "e \<noteq> []"
      using field_error_ne [OF _ v] f create_subset_update by blast
    ultimately show ?thesis using m by simp
  qed
  have b: "update ve kp s k d now
         = (s, Response 400 (Errors (field_errors partial d (TicketUpdateSerializer ve))))
       \<and> map_of (field_errors partial d (TicketUpdateSerializer ve)) (fst g) = Some e'
       \<and> e' \<noteq> []"
    if f: "g \<in> set (TicketUpdateSerializer ve)" and v: "validate_field partial d g = Inl e'"
      and g: "get_object s k = Some inst"
      and p: "partial = (case kp of None \<Rightarrow> False | Some b \<Rightarrow> b)"
  proof -
    have m: "map_of (field_errors partial d (TicketUpdateSerializer ve)) (fst g) = Some e'"
      unfolding map_of_field_errors [OF distinct_update] using f v by blast
    then have "field_errors partial d (TicketUpdateSerializer ve) \<noteq> []" by auto
    then have "update ve kp s k d now
         = (s, Response 400 (Errors (field_errors partial d (TicketUpdateSerializer ve))))"
      using p by (simp add: update_eq [OF g] Let_def)
    moreover have "e' \<noteq> []" using field_error_ne [OF f v] .
    ultimately show ?thesis using m by simp
  qed
  show ?thesis using a b keys_are_failing_fields by blast
qed

text \<open>
  C4, as the code has it: a create request with valid input appends one ticket with the
  next primary key and the status \<open>pending\<close>, whatever the body says under \<open>status\<close>;
  its \<open>created_at\<close> is the clock reading taken for that column and its \<open>updated_at\<close>
  the reading taken after it for the other, so the two are equal when the two readings
  are and \<open>created_at\<close> is the earlier one when the clock does not run backwards.
\<close>

theorem created_ticket_defaults:
  "to_internal_value (TicketCreateSerializer ve) False d = Inr vd \<longrightarrow>
     (\<exists>t. create ve s d t1 t2
             = (s\<lparr>tickets := tickets s @ [t], next_pk := Suc (next_pk s)\<rparr>,
                Response 201 (Data t))
          \<and> pk t = next_pk s \<and> status t = ''pending''
          \<and> created_at t = t1 \<and> updated_at t = t2)"
proof
  assume ok: "to_internal_value (TicketCreateSerializer ve) False d = Inr vd"
  let ?t = "snd (Ticket_objects_create s vd t1 t2)"
  from ok have vd: "vd = field_values False d (TicketCreateSerializer ve)"
    by (simp add: to_internal_value_eq split: if_splits)
  have "map_of vd ''status'' = None" unfolding vd by (rule status_value_create)
  then have "pk ?t = next_pk s \<and> status ?t = ''pending''
          \<and> created_at ?t = t1 \<and> updated_at ?t = t2"
    by (simp add: Ticket_objects_create_def Let_def)
  moreover have "create ve s d t1 t2
             = (s\<lparr>tickets := tickets s @ [?t], next_pk := Suc (next_pk s)\<rparr>,
                Response 201 (Data ?t))"
    using ok by (simp add: create_def Ticket_objects_create_def Let_def)
  ultimately show "\<exists>t. create ve s d t1 t2
             = (s\<lparr>tickets := tickets s @ [t], next_pk := Suc (next_pk s)\<rparr>,
                Response 201 (Data t))
          \<and> pk t = next_pk s \<and> status t = ''pending''
          \<and> created_at t = t1 \<and> updated_at t = t2"
    by blast
qed

text \<open>
  C6: a PATCH of an existing ticket whose body gives a valid status and none of the four
  other fields is answered 200; the ticket becomes the old one with the new status and
  the new \<open>updated_at\<close>, every other field as before, and the other rows are untouched.
\<close>

theorem patch_status_only:
  assumes "get_object s k = Some inst"
    and "d ''title'' = None" and "d ''description'' = None"
    and "d ''contact_email'' = None" and "d ''contact_phone'' = None"
    and "d ''status'' = Some (JStr st)" and "st \<in> set (map fst STATUS_CHOICES)"
  shows "patch ve s k d now =
           (s\<lparr>tickets := map (\<lambda>t. if pk t = k then inst\<lparr>status := st, updated_at := now\<rparr>
                                   else t) (tickets s)\<rparr>,
            Response 200 (Data (inst\<lparr>status := st, updated_at := now\<rparr>)))"
proof -
  have e: "field_errors True d (TicketUpdateSerializer ve) = []"
    using assms by (simp add: TicketUpdateSerializer_def field_errors_Cons field_results)
  have v: "field_values True d (TicketUpdateSerializer ve) = [(''status'', Some st)]"
    using assms by (simp add: TicketUpdateSerializer_def field_values_Cons field_results)
  have k: "pk inst = k" using get_object_SomeD [OF assms(1)] by simp
  show ?thesis
    by (simp add: patch_def update_eq [OF assms(1)] e v ModelSerializer_update_def save_def
        Let_def setattr_def k)
qed









section \<open>Sequences of requests\<close>

lemma find_append_Some: "find P xs = Some x \<Longrightarrow> find P (xs @ ys) = Some x"
  by (induction xs) (auto split: if_splits)

lemma find_replace:
  assumes "pk x = j"
  shows "find (\<lambda>t. pk t = k) (map (\<lambda>t. if pk t = j then x else t) ts)
           = map_option (\<lambda>t. if pk t = j then x else t) (find (\<lambda>t. pk t = k) ts)"
  using assms by (induction ts) auto

lemma get_object_save:
  assumes "get_object s k = Some t"
  shows "get_object (fst (save s i now)) k
           = Some (if pk t = pk i then i\<lparr>updated_at := now\<rparr> else t)"
  using assms find_replace [of "i\<lparr>updated_at := now\<rparr>" "pk i" k "tickets s"]
  by (simp add: get_object_def save_def Let_def)

lemma pks_save: "map pk (tickets (fst (save s i now))) = map pk (tickets s)"
  by (simp add: save_def Let_def)

lemma save_keeps:
  assumes t: "get_object s k = Some t" and i: "get_object s j = Some inst"
    and same: "pk i = pk inst" "created_at i = created_at inst"
  shows "\<exists>t'. get_object (fst (save s i now)) k = Some t' \<and> created_at t' = created_at t"
proof (cases "pk t = pk i")
  case True
  have "pk t = k" "pk inst = j"
    using get_object_SomeD [OF t] get_object_SomeD [OF i] by simp_all
  with True same have "k = j" by simp
  with t i have "t = inst" by simp
  then show ?thesis using get_object_save [OF t, of i now] True same by simp
next
  case False
  then show ?thesis using get_object_save [OF t, of i now] by simp
qed

lemma create_keeps:
  "(\<exists>new. tickets (fst (create ve s d t1 t2)) = tickets s @ new)"
  by (simp add: create_eq Ticket_objects_create_def Let_def)

lemma update_keeps:
  assumes "get_object s k = Some t"
  shows "\<exists>t'. get_object (fst (update ve kp s j d now)) k = Some t'
               \<and> created_at t' = created_at t"
proof (cases "get_object s j")
  case None
  then show ?thesis using assms by (simp add: update_def)
next
  case (Some inst)
  show ?thesis
  proof (cases "field_errors (case kp of None \<Rightarrow> False | Some b \<Rightarrow> b) d
                  (TicketUpdateSerializer ve) = []")
    case True
    then show ?thesis
      using save_keeps [OF assms Some, of "foldl setattr inst
               (field_values (case kp of None \<Rightarrow> False | Some b \<Rightarrow> b) d
                  (TicketUpdateSerializer ve))" now]
      by (simp add: update_eq [OF Some] Let_def ModelSerializer_update_def)
  next
    case False
    then show ?thesis using assms by (simp add: update_eq [OF Some] Let_def)
  qed
qed

lemma update_pks: "map pk (tickets (fst (update ve kp s j d now))) = map pk (tickets s)"
proof (cases "get_object s j")
  case None
  then show ?thesis by (simp add: update_def)
next
  case (Some inst)
  then show ?thesis
    by (simp add: update_eq [OF Some] Let_def ModelSerializer_update_def pks_save)
qed

lemma fst_admin_change:
  assumes "get_object s j = Some obj"
  shows "fst (admin_change s j f now)
           = fst (save s (obj\<lparr>title := form_title f,
                   description := form_description f, contact_email := form_contact_email f,
                   contact_phone := form_contact_phone f, status := form_status f\<rparr>) now)"
  using assms by (auto simp: admin_change_def split: prod.splits)

lemma admin_change_keeps:
  assumes "get_object s k = Some t"
  shows "\<exists>t'. get_object (fst (admin_change s j f now)) k = Some t'
               \<and> created_at t' = created_at t"
proof (cases "get_object s j")
  case None
  then show ?thesis using assms by (simp add: admin_change_def)
next
  case (Some obj)
  then show ?thesis
    using save_keeps [OF assms Some, of "obj\<lparr>title := form_title f,
        description := form_description f, contact_email := form_contact_email f,
        contact_phone := form_contact_phone f, status := form_status f\<rparr>" now]
    by (simp add: fst_admin_change [OF Some])
qed

lemma admin_change_pks: "map pk (tickets (fst (admin_change s j f now))) = map pk (tickets s)"
proof (cases "get_object s j")
  case None
  then show ?thesis by (simp add: admin_change_def)
next
  case (Some obj)
  then show ?thesis
    using pks_save [of s "obj\<lparr>title := form_title f,
        description := form_description f, contact_email := form_contact_email f,
        contact_phone := form_contact_phone f, status := form_status f\<rparr>" now]
    by (simp add: fst_admin_change [OF Some])
qed

lemma admin_delete_refused: "admin_delete s k = (s, Response 403 No_content)"
  by (simp add: admin_delete_def has_delete_permission_def)

lemma get_object_append:
  "get_object s k = Some t \<Longrightarrow> tickets s' = tickets s @ new \<Longrightarrow> get_object s' k = Some t"
  by (simp add: get_object_def find_append_Some)

lemma handle_keeps:
  assumes "get_object s k = Some t"
  shows "\<exists>t'. get_object (fst (handle ve s op)) k = Some t' \<and> created_at t' = created_at t"
proof (cases op)
  case (Api r)
  show ?thesis
  proof (cases "route r")
    case Ticket_list_create
    obtain new where "tickets (fst (create ve s (data r) (clock r) (clock_again r)))
                        = tickets s @ new"
      using create_keeps by blast
    then have "get_object (fst (create ve s (data r) (clock r) (clock_again r))) k = Some t"
      using get_object_append [OF assms] by blast
    then show ?thesis using Api Ticket_list_create assms
      by (cases "http_method r") (simp_all add: handle_def urlpatterns_def)
  next
    case (Ticket_detail j)
    show ?thesis using Api Ticket_detail assms update_keeps [OF assms]
      by (cases "http_method r")
         (simp_all add: handle_def urlpatterns_def retrieve_def put_def patch_def
            split: option.splits)
  next
    case Ticket_stats
    then show ?thesis using Api assms
      by (cases "http_method r") (simp_all add: handle_def urlpatterns_def)
  qed
next
  case (Admin_add f t1 t2)
  have "tickets (fst (admin_add s f t1 t2)) = tickets s @ [\<lparr>pk = next_pk s, title = form_title f, description = form_description f,
         contact_email = form_contact_email f, contact_phone = form_contact_phone f,
         status = form_status f, created_at = t1, updated_at = t2\<rparr>]"
    by (simp add: admin_add_def Let_def)
  then have "get_object (fst (admin_add s f t1 t2)) k = Some t"
    using get_object_append [OF assms] by blast
  then show ?thesis using Admin_add by (simp add: handle_def)
next
  case (Admin_change j f now)
  then show ?thesis using admin_change_keeps [OF assms] by (simp add: handle_def)
next
  case (Admin_delete j)
  then show ?thesis using assms by (simp add: handle_def admin_delete_refused)
qed

lemma handle_pks: "\<exists>new. map pk (tickets (fst (handle ve s op))) = map pk (tickets s) @ new"
proof (cases op)
  case (Api r)
  show ?thesis
  proof (cases "route r")
    case Ticket_list_create
    obtain new where "tickets (fst (create ve s (data r) (clock r) (clock_again r)))
                        = tickets s @ new"
      using create_keeps by blast
    then show ?thesis using Api Ticket_list_create
      by (cases "http_method r") (simp_all add: handle_def urlpatterns_def)
  next
    case (Ticket_detail j)
    show ?thesis using Api Ticket_detail update_pks
      by (cases "http_method r")
         (simp_all add: handle_def urlpatterns_def retrieve_def put_def patch_def
            split: option.splits)
  next
    case Ticket_stats
    then show ?thesis using Api
      by (cases "http_method r") (simp_all add: handle_def urlpatterns_def)
  qed
next
  case (Admin_add f t1 t2)
  then show ?thesis by (simp add: handle_def admin_add_def Let_def)
next
  case (Admin_change j f now)
  then show ?thesis using admin_change_pks by (simp add: handle_def)
next
  case (Admin_delete j)
  then show ?thesis by (simp add: handle_def admin_delete_refused)
qed

lemma run_keeps:
  "get_object s k = Some t \<Longrightarrow>
     \<exists>t'. get_object (run ve s ops) k = Some t' \<and> created_at t' = created_at t"
proof (induction ops arbitrary: s t)
  case Nil
  then show ?case by simp
next
  case (Cons op ops)
  from handle_keeps [OF Cons.prems, of ve op] obtain t1
    where t1: "get_object (fst (handle ve s op)) k = Some t1" "created_at t1 = created_at t"
    by blast
  from Cons.IH [OF t1(1)] t1(2) show ?case by simp
qed

lemma run_pks: "\<exists>new. map pk (tickets (run ve s ops)) = map pk (tickets s) @ new"
proof (induction ops arbitrary: s)
  case Nil
  then show ?case by simp
next
  case (Cons op ops)
  obtain n1 where n1: "map pk (tickets (fst (handle ve s op))) = map pk (tickets s) @ n1"
    using handle_pks by blast
  obtain n2 where "map pk (tickets (run ve (fst (handle ve s op)) ops))
                     = map pk (tickets (fst (handle ve s op))) @ n2"
    using Cons.IH by blast
  with n1 show ?case by simp
qed

text \<open>
  C9: whatever the sequence of requests to the three routes and of operations of the
  console, a primary key that identifies a ticket keeps identifying a ticket with the
  same \<open>created_at\<close>, and the primary keys of the rows of the store stay where they are
  in the table, new rows coming after them. The console refuses to delete, and the
  routes answer 405 to the method DELETE.
\<close>

theorem tickets_are_never_removed:
  "(get_object s k = Some t \<longrightarrow>
      (\<exists>t'. get_object (run ve s ops) k = Some t' \<and> pk t' = k
             \<and> created_at t' = created_at t))
   \<and> take (length (tickets s)) (map pk (tickets (run ve s ops))) = map pk (tickets s)
   \<and> fst (handle ve s (Admin_delete k)) = s
   \<and> (http_method r = DELETE \<longrightarrow> urlpatterns ve s r = (s, Response 405 No_content))"
proof -
  have a: "\<exists>t'. get_object (run ve s ops) k = Some t' \<and> pk t' = k
             \<and> created_at t' = created_at t" if "get_object s k = Some t"
    using run_keeps [OF that, of ve ops] get_object_SomeD by blast
  obtain new where "map pk (tickets (run ve s ops)) = map pk (tickets s) @ new"
    using run_pks by blast
  then have b: "take (length (tickets s)) (map pk (tickets (run ve s ops)))
                  = map pk (tickets s)"
    by simp
  have c: "fst (handle ve s (Admin_delete k)) = s"
    by (simp add: handle_def admin_delete_refused)
  have d: "urlpatterns ve s r = (s, Response 405 No_content)" if "http_method r = DELETE"
    using that by (cases "route r") (simp_all add: urlpatterns_def)
  show ?thesis using a b c d by blast
qed

section \<open>The date parameters\<close>

text \<open>
  C2: the queryset of the list view does not depend on \<open>created_after\<close> and
  \<open>created_before\<close>. With \<open>created_after\<close> at 3 the store of four tickets created at 1,
  2, 3 and 4 gives all four, the ticket created at 1 among them, where the inclusive
  bound asks for the last two; \<open>TicketFilter\<close> of \<open>filters.py\<close> would give these two, and
  no view uses it.
\<close>

theorem date_bounds_are_ignored:
  "get_queryset s (p\<lparr>q_created_after := a, q_created_before := b\<rparr>) = get_queryset s p
   \<and> get_queryset list_store (no_params\<lparr>q_created_after := Some 3\<rparr>) = tickets list_store
   \<and> created_at (factory_ticket 1 ''Pending Ticket'' ''pending'') < 3
   \<and> factory_ticket 1 ''Pending Ticket'' ''pending''
       \<in> set (get_queryset list_store (no_params\<lparr>q_created_after := Some 3\<rparr>))
   \<and> TicketFilter_qs (tickets list_store) (no_params\<lparr>q_created_after := Some 3\<rparr>)
       = [factory_ticket 3 ''Resolved Ticket'' ''resolved'',
          factory_ticket 4 ''New Support Request'' ''rejected'']"
proof -
  have a: "get_queryset s (p\<lparr>q_created_after := a, q_created_before := b\<rparr>) = get_queryset s p"
    by (simp add: get_queryset_def)
  have b: "get_queryset list_store (no_params\<lparr>q_created_after := Some 3\<rparr>) = tickets list_store"
    by (simp add: get_queryset_def no_params_def)
  have c: "created_at (factory_ticket 1 ''Pending Ticket'' ''pending'') < 3"
    by (simp add: factory_ticket_def)
  have d: "factory_ticket 1 ''Pending Ticket'' ''pending''
       \<in> set (get_queryset list_store (no_params\<lparr>q_created_after := Some 3\<rparr>))"
    unfolding b by (simp add: list_store_def)
  have e: "TicketFilter_qs (tickets list_store) (no_params\<lparr>q_created_after := Some 3\<rparr>)
       = [factory_ticket 3 ''Resolved Ticket'' ''resolved'',
          factory_ticket 4 ''New Support Request'' ''rejected'']"
    by (simp add: TicketFilter_qs_def no_params_def list_store_def factory_ticket_def)
  show ?thesis using a b c d e by blast
qed

section \<open>The properties on the test data\<close>





theorem created_at_differs_counterexample:
  "create has_at_sign update_store create_data 5 6
     = (update_store\<lparr>tickets := tickets update_store @ [created_ticket], next_pk := 3\<rparr>,
        Response 201 (Data created_ticket))
   \<and> created_at created_ticket \<noteq> updated_at created_ticket"
  by code_simp

theorem created_ticket_defaults_witness:
  "to_internal_value (TicketCreateSerializer has_at_sign) False
       (create_data(''status'' \<mapsto> JStr ''resolved''))
     = Inr [(''title'', Some ''New Support Request''),
            (''description'', Some ''This is a detailed description of the support request''),
            (''contact_email'', Some ''user@example.com''),
            (''contact_phone'', Some ''1234567890'')]
   \<and> (\<exists>t. create has_at_sign update_store (create_data(''status'' \<mapsto> JStr ''resolved'')) 5 5
             = (update_store\<lparr>tickets := tickets update_store @ [t],
                               next_pk := Suc (next_pk update_store)\<rparr>,
                Response 201 (Data t))
          \<and> pk t = next_pk update_store \<and> status t = ''pending''
          \<and> created_at t = 5 \<and> updated_at t = 5)"
proof -
  have v: "to_internal_value (TicketCreateSerializer has_at_sign) False
       (create_data(''status'' \<mapsto> JStr ''resolved''))
     = Inr [(''title'', Some ''New Support Request''),
            (''description'', Some ''This is a detailed description of the support request''),
            (''contact_email'', Some ''user@example.com''),
            (''contact_phone'', Some ''1234567890'')]"
    by code_simp
  show ?thesis
    using created_ticket_defaults [where ve = has_at_sign
        and d = "create_data(''status'' \<mapsto> JStr ''resolved'')" and s = update_store
        and ?t1.0 = 5 and ?t2.0 = 5] v
    by blast
qed

theorem patch_status_only_witness:
  "get_object update_store 1 = Some (factory_ticket 1 ''Test Update Ticket'' ''pending'')
   \<and> status_only ''title'' = None \<and> status_only ''description'' = None
   \<and> status_only ''contact_email'' = None \<and> status_only ''contact_phone'' = None
   \<and> status_only ''status'' = Some (JStr ''resolved'')
   \<and> ''resolved'' \<in> set (map fst STATUS_CHOICES)
   \<and> patch has_at_sign update_store 1 status_only 9
       = (update_store\<lparr>tickets :=
            map (\<lambda>t. if pk t = 1
                      then (factory_ticket 1 ''Test Update Ticket'' ''pending'')
                             \<lparr>status := ''resolved'', updated_at := 9\<rparr>
                      else t) (tickets update_store)\<rparr>,
          Response 200 (Data ((factory_ticket 1 ''Test Update Ticket'' ''pending'')
                                \<lparr>status := ''resolved'', updated_at := 9\<rparr>)))"
proof -
  have g: "get_object update_store 1
             = Some (factory_ticket 1 ''Test Update Ticket'' ''pending'')"
    by code_simp
  have o: "status_only ''title'' = None" "status_only ''description'' = None"
    "status_only ''contact_email'' = None" "status_only ''contact_phone'' = None"
    "status_only ''status'' = Some (JStr ''resolved'')"
    by (simp_all add: status_only_def)
  have c: "''resolved'' \<in> set (map fst STATUS_CHOICES)"
    by (simp add: STATUS_CHOICES_def)
  show ?thesis
    using patch_status_only [OF g o c, of has_at_sign 9] g o c by simp
qed

theorem invalid_input_changes_nothing_witness:
  "create has_at_sign update_store short_data 5 6
     = (update_store,
        Response 400 (Errors
          [(''title'', [Detail ''Title must be at least 3 characters long.'']),
           (''description'', [Detail ''Description must be at least 10 characters long.''])]))
   \<and> update has_at_sign None update_store 1 short_data 9
     = (update_store,
        Response 400 (Errors
          [(''title'', [Detail ''Title must be at least 3 characters long.'']),
           (''description'', [Detail ''Description must be at least 10 characters long.''])]))
   \<and> map_of (field_errors False short_data (TicketCreateSerializer has_at_sign)) ''title''
       = Some [Detail ''Title must be at least 3 characters long.'']
   \<and> map_of (field_errors False short_data (TicketUpdateSerializer has_at_sign))
        ''description''
       = Some [Detail ''Description must be at least 10 characters long.'']"
proof -
  let ?f = "(''title'', CharField_run_validation title_field, Some validate_title)"
  let ?g = "(''description'', CharField_run_validation description_field,
             Some validate_description)"
  have f: "?f \<in> set (TicketCreateSerializer has_at_sign)"
    by (simp add: TicketCreateSerializer_def)
  have g: "?g \<in> set (TicketUpdateSerializer has_at_sign)"
    by (simp add: TicketUpdateSerializer_def)
  have vf: "validate_field False short_data ?f
              = Inl [Detail ''Title must be at least 3 characters long.'']"
    by code_simp
  have vg: "validate_field False short_data ?g
              = Inl [Detail ''Description must be at least 10 characters long.'']"
    by code_simp
  have o: "get_object update_store 1
             = Some (factory_ticket 1 ''Test Update Ticket'' ''pending'')"
    by code_simp
  have ec: "field_errors False short_data (TicketCreateSerializer has_at_sign)
              = [(''title'', [Detail ''Title must be at least 3 characters long.'']),
                 (''description'',
                  [Detail ''Description must be at least 10 characters long.''])]"
    by code_simp
  have eu: "field_errors False short_data (TicketUpdateSerializer has_at_sign)
              = [(''title'', [Detail ''Title must be at least 3 characters long.'']),
                 (''description'',
                  [Detail ''Description must be at least 10 characters long.''])]"
    by code_simp
  have p: "False = (case (None :: bool option) of None \<Rightarrow> False | Some b \<Rightarrow> b)" by simp
  from invalid_input_changes_nothing [where f = ?f and g = ?g and ve = has_at_sign
      and d = short_data and s = update_store and ?t1.0 = 5 and ?t2.0 = 6 and k = 1
      and inst = "factory_ticket 1 ''Test Update Ticket'' ''pending''" and kp = None
      and now = 9 and partial = False
      and e = "[Detail ''Title must be at least 3 characters long.'']"
      and e' = "[Detail ''Description must be at least 10 characters long.'']"]
    f g vf vg o p
  have "create has_at_sign update_store short_data 5 6
          = (update_store, Response 400 (Errors (field_errors False short_data
                                                   (TicketCreateSerializer has_at_sign))))
        \<and> map_of (field_errors False short_data (TicketCreateSerializer has_at_sign))
             (fst ?f) = Some [Detail ''Title must be at least 3 characters long.'']
        \<and> update has_at_sign None update_store 1 short_data 9
          = (update_store, Response 400 (Errors (field_errors False short_data
                                                   (TicketUpdateSerializer has_at_sign))))
        \<and> map_of (field_errors False short_data (TicketUpdateSerializer has_at_sign))
             (fst ?g) = Some [Detail ''Description must be at least 10 characters long.'']"
    by blast
  then show ?thesis using ec eu by simp
qed

theorem tickets_are_never_removed_witness:
  "get_object update_store 1 = Some (factory_ticket 1 ''Test Update Ticket'' ''pending'')
   \<and> (\<exists>t'. get_object (run has_at_sign update_store example_operations) 1 = Some t'
           \<and> pk t' = 1
           \<and> created_at t' = created_at (factory_ticket 1 ''Test Update Ticket'' ''pending''))
   \<and> take (length (tickets update_store))
        (map pk (tickets (run has_at_sign update_store example_operations)))
       = map pk (tickets update_store)
   \<and> map pk (tickets (run has_at_sign update_store example_operations)) = [1, 2]
   \<and> http_method delete_request = DELETE
   \<and> urlpatterns has_at_sign update_store delete_request
       = (update_store, Response 405 No_content)"
proof -
  have g: "get_object update_store 1
             = Some (factory_ticket 1 ''Test Update Ticket'' ''pending'')"
    by code_simp
  have m: "http_method delete_request = DELETE" by (simp add: delete_request_def)
  have r: "map pk (tickets (run has_at_sign update_store example_operations)) = [1, 2]"
    by code_simp
  show ?thesis
    using tickets_are_never_removed [where s = update_store and k = 1
        and t = "factory_ticket 1 ''Test Update Ticket'' ''pending''" and ve = has_at_sign
        and ops = example_operations and r = delete_request] g m r
    by blast
qed

end
